theory Spec2Isabelle
  imports Main
begin

section \<open>The data model of package fsm\<close>

text \<open>
  A shallow embedding of the Go package \<^verbatim>\<open>fsm\<close>, a non-hierarchical finite state machine
  driven by events: the transition table with replace-or-append insertion, the dispatch of
  an event with its action and callbacks, and the loop of \<^verbatim>\<open>SendEvent\<close> that follows events
  chained with \<^verbatim>\<open>SetEvent\<close>.
\<close>

text \<open>
  States and events are Go strings; the empty string is the zero value that the code
  tests with \<^verbatim>\<open>== ""\<close> and \<^verbatim>\<open>len(...) > 0\<close>.
\<close>

type_synonym State = string
type_synonym Event = string

text \<open>
  Go function values cannot be stored inside a HOL record that they themselves take as an
  argument (an \<^verbatim>\<open>Action\<close> receives the \<^verbatim>\<open>*FSM\<close> whose table holds it). A function value is
  therefore a handle, and an environment (\<open>env\<close>, below) says what calling the handle does.
  A nil function is \<open>None\<close>.
\<close>

datatype ActionFn = ActionFn nat
datatype StateFn = StateFn nat
datatype TransitionFn = TransitionFn nat

record TransitionError =
  te_Event :: Event
  te_Source :: State
  te_Target :: State

text \<open>
  A value of the Go interface type \<^verbatim>\<open>error\<close>: nil, a \<^verbatim>\<open>TransitionError\<close> value, or a value
  of any other dynamic type (for which the type assertion \<^verbatim>\<open>err.(TransitionError)\<close> fails).
\<close>

datatype error = ErrNil | ErrTransition TransitionError | ErrOther string

record Transition =
  Event :: Event
  Source :: State
  Target :: State
  Action :: "ActionFn option"

text \<open>The struct \<^verbatim>\<open>FSM\<close>; \<^verbatim>\<open>data interface{}\<close> is \<open>'d option\<close> with nil as \<open>None\<close>.\<close>

record 'd FSM =
  exit :: "StateFn option"
  enter :: "StateFn option"
  transition :: "TransitionFn option"
  exitStates :: "State \<rightharpoonup> StateFn"
  enterStates :: "State \<rightharpoonup> StateFn"
  transitions :: "Transition list"
  current :: State
  event :: Event
  data :: "'d option"

text \<open>The three \<^verbatim>\<open>panic\<close> calls of the file.\<close>

datatype panic =
  PanicEmptyCurrent      \<comment> \<open>the current state must not be empty\<close>
| PanicInvalidTransition \<comment> \<open>invalid state transition: source, target, or event is empty\<close>
| PanicEmptyEvent        \<comment> \<open>FSM: the event must not be empty\<close>

text \<open>
  A call either returns or panics. Every operation that writes through its receiver
  yields the outcome together with the machine as the call leaves it, so that what a
  panicking call did before it panicked stays visible.
\<close>

datatype 'r outcome = Panic panic | Return 'r

subsection \<open>The error predicates\<close>

definition TransitionError_IsSuspended :: "TransitionError \<Rightarrow> bool" where
  "TransitionError_IsSuspended e = (length (te_Source e) > 0)"

definition TransitionError_IsNoTransition :: "TransitionError \<Rightarrow> bool" where
  "TransitionError_IsNoTransition e = (length (te_Source e) > 0)"

definition IsSuspended :: "error \<Rightarrow> bool" where
  "IsSuspended err =
     (case err of ErrTransition te \<Rightarrow> TransitionError_IsSuspended te | _ \<Rightarrow> False)"

definition IsNoTransition :: "error \<Rightarrow> bool" where
  "IsNoTransition err =
     (case err of ErrTransition te \<Rightarrow> TransitionError_IsNoTransition te | _ \<Rightarrow> False)"

subsection \<open>Construction, Reset, SetCurrent and the read accessors\<close>

definition New :: "'d FSM" where
  "New = \<lparr>exit = None, enter = None, transition = None,
          exitStates = Map.empty, enterStates = Map.empty,
          transitions = [], current = [], event = [], data = None\<rparr>"

text \<open>
  \<^verbatim>\<open>Reset\<close> deletes every key of both maps and then overwrites the struct with a literal
  that keeps only the two (now empty) maps: every other field is its zero value.
\<close>

definition Reset :: "'d FSM \<Rightarrow> 'd FSM" where
  "Reset f =
     (let exitStates' = (\<lambda>key. if exitStates f key \<noteq> None then None else exitStates f key);
          enterStates' = (\<lambda>key. if enterStates f key \<noteq> None then None else enterStates f key)
      in \<lparr>exit = None, enter = None, transition = None,
          exitStates = exitStates', enterStates = enterStates',
          transitions = [], current = [], event = [], data = None\<rparr>)"

definition SetCurrent :: "State \<Rightarrow> 'd FSM \<Rightarrow> unit outcome \<times> 'd FSM" where
  "SetCurrent c f = (if c = [] then (Panic PanicEmptyCurrent, f)
                     else (Return (), f\<lparr>current := c\<rparr>))"

definition Current :: "'d FSM \<Rightarrow> State" where
  "Current f = current f"

definition Transitions :: "'d FSM \<Rightarrow> Transition list" where
  "Transitions f = transitions f"

subsection \<open>The transition table\<close>

text \<open>
  \<^verbatim>\<open>indexTransition\<close>: the index of the first entry with this source and event, or \<open>-1\<close>.
  \<open>indexFrom i\<close> is the loop from position \<open>i\<close> on.
\<close>

fun indexFrom :: "int \<Rightarrow> Transition list \<Rightarrow> State \<Rightarrow> Event \<Rightarrow> int" where
  "indexFrom i [] src ev = - 1"
| "indexFrom i (t # ts) src ev =
     (if Source t = src \<and> Event t = ev then i else indexFrom (i + 1) ts src ev)"

definition indexTransition :: "'d FSM \<Rightarrow> State \<Rightarrow> Event \<Rightarrow> int" where
  "indexTransition f src ev = indexFrom 0 (transitions f) src ev"

text \<open>
  \<^verbatim>\<open>GetTransition\<close>: the entry at that index and true, or the zero \<^verbatim>\<open>Transition\<close> and false.
\<close>

definition GetTransition :: "'d FSM \<Rightarrow> State \<Rightarrow> Event \<Rightarrow> Transition \<times> bool" where
  "GetTransition f src ev =
     (let index = indexTransition f src ev
      in if index > - 1 then (transitions f ! nat index, True)
         else (\<lparr>Event = [], Source = [], Target = [], Action = None\<rparr>, False))"

text \<open>The first loop of \<^verbatim>\<open>AddTransitions\<close>: does some argument make it panic?\<close>

fun invalidTransitions :: "Transition list \<Rightarrow> bool" where
  "invalidTransitions [] = False"
| "invalidTransitions (t # ts) =
     (if Source t = [] \<or> Target t = [] \<or> Event t = [] then True else invalidTransitions ts)"

text \<open>The second loop: replace in place, or append.\<close>

fun addLoop :: "Transition list \<Rightarrow> 'd FSM \<Rightarrow> 'd FSM" where
  "addLoop [] f = f"
| "addLoop (t # ts) f =
     (let index = indexTransition f (Source t) (Event t)
      in if index > - 1
         then addLoop ts (f\<lparr>transitions := (transitions f)[nat index := t]\<rparr>)
         else addLoop ts (f\<lparr>transitions := transitions f @ [t]\<rparr>))"

definition AddTransitions :: "Transition list \<Rightarrow> 'd FSM \<Rightarrow> unit outcome \<times> 'd FSM" where
  "AddTransitions ts f =
     (if invalidTransitions ts then (Panic PanicInvalidTransition, f)
      else (Return (), addLoop ts f))"

subsection \<open>Registering callbacks\<close>

definition OnEnter :: "StateFn option \<Rightarrow> 'd FSM \<Rightarrow> 'd FSM" where
  "OnEnter fn f = f\<lparr>enter := fn\<rparr>"

definition OnExit :: "StateFn option \<Rightarrow> 'd FSM \<Rightarrow> 'd FSM" where
  "OnExit fn f = f\<lparr>exit := fn\<rparr>"

text \<open>The per-state maps are modelled with non-nil functions as their values.\<close>

definition OnEnterState :: "State \<Rightarrow> StateFn \<Rightarrow> 'd FSM \<Rightarrow> 'd FSM" where
  "OnEnterState state fn f = f\<lparr>enterStates := (enterStates f)(state \<mapsto> fn)\<rparr>"

definition OnExitState :: "State \<Rightarrow> StateFn \<Rightarrow> 'd FSM \<Rightarrow> 'd FSM" where
  "OnExitState state fn f = f\<lparr>exitStates := (exitStates f)(state \<mapsto> fn)\<rparr>"

definition OnTransition :: "TransitionFn option \<Rightarrow> 'd FSM \<Rightarrow> 'd FSM" where
  "OnTransition fn f = f\<lparr>transition := fn\<rparr>"

definition SetEvent :: "Event \<Rightarrow> 'd option \<Rightarrow> 'd FSM \<Rightarrow> 'd FSM" where
  "SetEvent ev d f = f\<lparr>event := ev, data := d\<rparr>"

section \<open>Dispatch\<close>

text \<open>
  What a dispatch acts on: the machine, whatever else the actions and callbacks of the
  embedding program read and write (\<open>world\<close>), and the calls made so far to actions and
  callbacks, in order (\<open>calls\<close>). Only the dispatch code appends to \<open>calls\<close>.
\<close>

datatype 'd call =
  CallAction ActionFn "'d option"
| CallExitState StateFn State
| CallExit StateFn State
| CallEnterState StateFn State
| CallEnter StateFn State
| CallTransition TransitionFn State State

record ('d, 'w) cfg =
  fsm :: "'d FSM"
  world :: 'w
  calls :: "'d call list"

text \<open>
  The environment gives each function value its behaviour. An action gets the machine by
  pointer, and a callback is a closure that may hold that pointer too, so either may change
  the machine as well as the world. Actions and callbacks are taken to return normally.
\<close>

record ('d, 'w) env =
  runAction :: "ActionFn \<Rightarrow> 'd option \<Rightarrow> 'd FSM \<times> 'w \<Rightarrow> bool \<times> 'd FSM \<times> 'w"
  runState :: "StateFn \<Rightarrow> State \<Rightarrow> 'd FSM \<times> 'w \<Rightarrow> 'd FSM \<times> 'w"
  runTransition :: "TransitionFn \<Rightarrow> State \<Rightarrow> State \<Rightarrow> 'd FSM \<times> 'w \<Rightarrow> 'd FSM \<times> 'w"

definition callAction ::
  "('d, 'w) env \<Rightarrow> ActionFn \<Rightarrow> 'd option \<Rightarrow> ('d, 'w) cfg \<Rightarrow> bool \<times> ('d, 'w) cfg" where
  "callAction E a d s =
     (case runAction E a d (fsm s, world s) of
        (b, f', w') \<Rightarrow> (b, \<lparr>fsm = f', world = w', calls = calls s @ [CallAction a d]\<rparr>))"

definition callState ::
  "('d, 'w) env \<Rightarrow> (StateFn \<Rightarrow> State \<Rightarrow> 'd call) \<Rightarrow> StateFn \<Rightarrow> State \<Rightarrow> ('d, 'w) cfg
     \<Rightarrow> ('d, 'w) cfg" where
  "callState E slot fn st s =
     (case runState E fn st (fsm s, world s) of
        (f', w') \<Rightarrow> \<lparr>fsm = f', world = w', calls = calls s @ [slot fn st]\<rparr>)"

definition callTransition ::
  "('d, 'w) env \<Rightarrow> TransitionFn \<Rightarrow> State \<Rightarrow> State \<Rightarrow> ('d, 'w) cfg \<Rightarrow> ('d, 'w) cfg" where
  "callTransition E fn prev cur s =
     (case runTransition E fn prev cur (fsm s, world s) of
        (f', w') \<Rightarrow> \<lparr>fsm = f', world = w', calls = calls s @ [CallTransition fn prev cur]\<rparr>)"

text \<open>
  The five \<^verbatim>\<open>if\<close> statements of \<^verbatim>\<open>sendEvent\<close> that call a callback when one is registered.
  Each reads its registration from the machine as it is when the statement runs.
\<close>

definition fireExitState :: "('d, 'w) env \<Rightarrow> State \<Rightarrow> ('d, 'w) cfg \<Rightarrow> ('d, 'w) cfg" where
  "fireExitState E cur s =
     (case exitStates (fsm s) cur of
        Some fn \<Rightarrow> callState E CallExitState fn cur s | None \<Rightarrow> s)"

definition fireExit :: "('d, 'w) env \<Rightarrow> State \<Rightarrow> ('d, 'w) cfg \<Rightarrow> ('d, 'w) cfg" where
  "fireExit E cur s =
     (case exit (fsm s) of Some fn \<Rightarrow> callState E CallExit fn cur s | None \<Rightarrow> s)"

definition fireEnterState :: "('d, 'w) env \<Rightarrow> State \<Rightarrow> ('d, 'w) cfg \<Rightarrow> ('d, 'w) cfg" where
  "fireEnterState E tgt s =
     (case enterStates (fsm s) tgt of
        Some fn \<Rightarrow> callState E CallEnterState fn tgt s | None \<Rightarrow> s)"

definition fireEnter :: "('d, 'w) env \<Rightarrow> State \<Rightarrow> ('d, 'w) cfg \<Rightarrow> ('d, 'w) cfg" where
  "fireEnter E tgt s =
     (case enter (fsm s) of Some fn \<Rightarrow> callState E CallEnter fn tgt s | None \<Rightarrow> s)"

definition fireOnTransition ::
  "('d, 'w) env \<Rightarrow> State \<Rightarrow> State \<Rightarrow> ('d, 'w) cfg \<Rightarrow> ('d, 'w) cfg" where
  "fireOnTransition E cur tgt s =
     (case transition (fsm s) of Some fn \<Rightarrow> callTransition E fn cur tgt s | None \<Rightarrow> s)"

text \<open>\<^verbatim>\<open>t.Action != nil && !t.Action(f, data)\<close>: the action is called only when it is set.\<close>

definition actionVetoes ::
  "('d, 'w) env \<Rightarrow> Transition \<Rightarrow> 'd option \<Rightarrow> ('d, 'w) cfg \<Rightarrow> bool \<times> ('d, 'w) cfg" where
  "actionVetoes E t d s =
     (case Action t of
        None \<Rightarrow> (False, s)
      | Some a \<Rightarrow> (case callAction E a d s of (b, s1) \<Rightarrow> (\<not> b, s1)))"

text \<open>
  The body of the \<^verbatim>\<open>if t.Source == current && t.Event == event\<close> branch of \<^verbatim>\<open>sendEvent\<close>,
  statement by statement. \<open>cur\<close> is the local \<^verbatim>\<open>current\<close>, read once before the loop, and
  \<open>t\<close> the loop's copy of the table entry.
\<close>

definition fireTransition ::
  "('d, 'w) env \<Rightarrow> Event \<Rightarrow> 'd option \<Rightarrow> State \<Rightarrow> Transition \<Rightarrow> ('d, 'w) cfg
     \<Rightarrow> error outcome \<times> ('d, 'w) cfg" where
  "fireTransition E ev d cur t s =
     (case actionVetoes E t d s of
        (True, s1) \<Rightarrow>
          (Return (ErrTransition \<lparr>te_Event = ev, te_Source = Source t, te_Target = Target t\<rparr>), s1)
      | (False, s1) \<Rightarrow>
          (let s2 = fireExitState E cur s1;
               s3 = fireExit E cur s2
           in case SetCurrent (Target t) (fsm s3) of
                (Panic p, f') \<Rightarrow> (Panic p, s3\<lparr>fsm := f'\<rparr>)
              | (Return u, f') \<Rightarrow>
                  (let s4 = s3\<lparr>fsm := f'\<rparr>;
                       s5 = fireEnterState E (Target t) s4;
                       s6 = fireEnter E (Target t) s5;
                       s7 = fireOnTransition E cur (Target t) s6
                   in (Return ErrNil, s7))))"

text \<open>
  The \<^verbatim>\<open>range\<close> loop of \<^verbatim>\<open>sendEvent\<close> over the table as it is on entry. The loop returns
  from inside its first matching entry, so no later entry is read after an action or a
  callback has run.
\<close>

fun sendEventRange ::
  "('d, 'w) env \<Rightarrow> Event \<Rightarrow> 'd option \<Rightarrow> State \<Rightarrow> Transition list \<Rightarrow> ('d, 'w) cfg
     \<Rightarrow> error outcome \<times> ('d, 'w) cfg" where
  "sendEventRange E ev d cur [] s =
     (Return (ErrTransition \<lparr>te_Event = ev, te_Source = [], te_Target = []\<rparr>), s)"
| "sendEventRange E ev d cur (t # ts) s =
     (if Source t = cur \<and> Event t = ev then fireTransition E ev d cur t s
      else sendEventRange E ev d cur ts s)"

definition sendEvent ::
  "('d, 'w) env \<Rightarrow> Event \<Rightarrow> 'd option \<Rightarrow> ('d, 'w) cfg \<Rightarrow> error outcome \<times> ('d, 'w) cfg" where
  "sendEvent E ev d s =
     sendEventRange E ev d (Current (fsm s)) (Transitions (fsm s)) s"

text \<open>
  The \<^verbatim>\<open>for { ... }\<close> loop of \<^verbatim>\<open>SendEvent\<close>. \<open>SendEventIter\<close> is the first two statements of
  its body, \<open>chainStops\<close> the condition of its \<^verbatim>\<open>break\<close>. Nothing bounds the number of
  iterations, so the loop is a partial function: \<open>None\<close> is a call that never returns.
\<close>

definition SendEventIter ::
  "('d, 'w) env \<Rightarrow> Event \<Rightarrow> 'd option \<Rightarrow> ('d, 'w) cfg \<Rightarrow> error outcome \<times> ('d, 'w) cfg" where
  "SendEventIter E ev d s = sendEvent E ev d (s\<lparr>fsm := SetEvent [] None (fsm s)\<rparr>)"

definition chainStops :: "error \<Rightarrow> ('d, 'w) cfg \<Rightarrow> bool" where
  "chainStops err s1 \<longleftrightarrow> event (fsm s1) = [] \<or> (err \<noteq> ErrNil \<and> \<not> IsSuspended err)"

partial_function (option) SendEventLoop ::
  "('d, 'w) env \<Rightarrow> Event \<Rightarrow> 'd option \<Rightarrow> ('d, 'w) cfg
     \<Rightarrow> (error outcome \<times> ('d, 'w) cfg) option" where
  "SendEventLoop E ev d s =
     (case SendEventIter E ev d s of
        (Panic p, s1) \<Rightarrow> Some (Panic p, s1)
      | (Return err, s1) \<Rightarrow>
          if chainStops err s1 then Some (Return err, s1)
          else SendEventLoop E (event (fsm s1)) (data (fsm s1)) s1)"

definition SendEvent ::
  "('d, 'w) env \<Rightarrow> Event \<Rightarrow> 'd option \<Rightarrow> ('d, 'w) cfg
     \<Rightarrow> (error outcome \<times> ('d, 'w) cfg) option" where
  "SendEvent E ev d s =
     (if ev = [] then Some (Panic PanicEmptyEvent, s) else SendEventLoop E ev d s)"


definition TestEvent :: "Event \<Rightarrow> ('d, 'w) cfg \<Rightarrow> bool \<times> ('d, 'w) cfg" where
  "TestEvent ev s = (indexTransition (fsm s) (Current (fsm s)) ev > - 1, s)"

text \<open>
  The same loop with a bound on the number of iterations: \<open>None\<close> when \<open>n\<close> iterations do
  not reach the \<^verbatim>\<open>break\<close>.
\<close>

fun SendEventFuel ::
  "nat \<Rightarrow> ('d, 'w) env \<Rightarrow> Event \<Rightarrow> 'd option \<Rightarrow> ('d, 'w) cfg
     \<Rightarrow> (error outcome \<times> ('d, 'w) cfg) option" where
  "SendEventFuel 0 E ev d s = None"
| "SendEventFuel (Suc n) E ev d s =
     (case SendEventIter E ev d s of
        (Panic p, s1) \<Rightarrow> Some (Panic p, s1)
      | (Return err, s1) \<Rightarrow>
          if chainStops err s1 then Some (Return err, s1)
          else SendEventFuel n E (event (fsm s1)) (data (fsm s1)) s1)"



section \<open>Sequences of table operations\<close>

text \<open>
  A call of \<^verbatim>\<open>AddTransitions\<close> or of \<^verbatim>\<open>Reset\<close>; \<open>runOps\<close> performs a sequence of them on a
  machine, each on the machine the previous one left (a panicking \<^verbatim>\<open>AddTransitions\<close> included).
\<close>

datatype op = OpAddTransitions "Transition list" | OpReset

fun applyOp :: "op \<Rightarrow> 'd FSM \<Rightarrow> 'd FSM" where
  "applyOp (OpAddTransitions ts) f = snd (AddTransitions ts f)"
| "applyOp OpReset f = Reset f"

fun runOps :: "op list \<Rightarrow> 'd FSM \<Rightarrow> 'd FSM" where
  "runOps [] f = f"
| "runOps (x # xs) f = runOps xs (applyOp x f)"

text \<open>The entries of a table for one (source, event) pair, and the pair of an entry.\<close>

definition entriesFor :: "State \<Rightarrow> Event \<Rightarrow> Transition list \<Rightarrow> Transition list" where
  "entriesFor src ev ts = filter (\<lambda>t. Source t = src \<and> Event t = ev) ts"

definition key :: "Transition \<Rightarrow> State \<times> Event" where
  "key t = (Source t, Event t)"

section \<open>Example machines\<close>

text \<open>The two transitions of the package's examples, and variants of them.\<close>

definition tFooBar :: Transition where
  "tFooBar = \<lparr>Event = ''EventBar'', Source = ''StateFoo'', Target = ''StateBar'', Action = None\<rparr>"

definition tBarFoo :: Transition where
  "tBarFoo = \<lparr>Event = ''EventFoo'', Source = ''StateBar'', Target = ''StateFoo'',
               Action = Some (ActionFn 0)\<rparr>"

definition tBarBaz :: Transition where
  "tBarBaz = \<lparr>Event = ''EventFoo'', Source = ''StateBar'', Target = ''StateBaz'', Action = None\<rparr>"

definition tNoTarget :: Transition where
  "tNoTarget = \<lparr>Event = ''EventBar'', Source = ''StateBar'', Target = [], Action = None\<rparr>"

text \<open>
  An environment: action 0 chains \<^verbatim>\<open>EventBar\<close> and lets the transition proceed (the action of
  \<^verbatim>\<open>ExampleFSM_SetEvent\<close>), action 1 vetoes, action 2 chains \<^verbatim>\<open>EventBar\<close> and vetoes, every
  other action chains \<^verbatim>\<open>EventFoo\<close> and proceeds. Every callback appends the current state it
  sees to the world, a list of states.
\<close>

definition exEnv :: "(unit, State list) env" where
  "exEnv =
     \<lparr>runAction = (\<lambda>a d (f, w). case a of ActionFn n \<Rightarrow>
          if n = 0 then (True, SetEvent ''EventBar'' None f, w)
          else if n = 1 then (False, f, w)
          else if n = 2 then (False, SetEvent ''EventBar'' None f, w)
          else (True, SetEvent ''EventFoo'' None f, w)),
      runState = (\<lambda>fn st (f, w). (f, w @ [current f])),
      runTransition = (\<lambda>fn prev cur (f, w). (f, w @ [current f]))\<rparr>"

text \<open>The machine of \<^verbatim>\<open>ExampleFSM_SetEvent\<close>, in state \<^verbatim>\<open>StateBar\<close>, with nothing called yet.\<close>

definition exFSM :: "unit FSM" where
  "exFSM = (New :: unit FSM)\<lparr>transitions := [tBarFoo, tFooBar], current := ''StateBar''\<rparr>"

definition exCfg :: "(unit, State list) cfg" where
  "exCfg = \<lparr>fsm = exFSM, world = [], calls = []\<rparr>"

text \<open>A transition whose action vetoes, and one whose action vetoes after chaining.\<close>

definition tVeto :: Transition where
  "tVeto = \<lparr>Event = ''EventFoo'', Source = ''StateBar'', Target = ''StateFoo'',
             Action = Some (ActionFn 1)\<rparr>"

definition tVetoChain :: Transition where
  "tVetoChain = \<lparr>Event = ''EventFoo'', Source = ''StateBar'', Target = ''StateFoo'',
                  Action = Some (ActionFn 2)\<rparr>"

definition tBarOnBar :: Transition where
  "tBarOnBar = \<lparr>Event = ''EventBar'', Source = ''StateBar'', Target = ''StateBaz'',
                 Action = None\<rparr>"

definition vetoCfg :: "(unit, State list) cfg" where
  "vetoCfg = exCfg\<lparr>fsm := exFSM\<lparr>transitions := [tVeto, tFooBar]\<rparr>\<rparr>"

definition vetoChainCfg :: "(unit, State list) cfg" where
  "vetoChainCfg = exCfg\<lparr>fsm := exFSM\<lparr>transitions := [tVetoChain, tBarOnBar]\<rparr>\<rparr>"

text \<open>A transition from \<^verbatim>\<open>StateBar\<close> to itself whose action chains the event that fires it.\<close>

definition tLoop :: Transition where
  "tLoop = \<lparr>Event = ''EventFoo'', Source = ''StateBar'', Target = ''StateBar'',
             Action = Some (ActionFn 3)\<rparr>"

definition loopCfg :: "(unit, State list) cfg" where
  "loopCfg = exCfg\<lparr>fsm := exFSM\<lparr>transitions := [tLoop]\<rparr>\<rparr>"

text \<open>What every iteration of the loop on \<open>loopCfg\<close> keeps true of the configuration.\<close>

definition loopInv :: "(unit, State list) cfg \<Rightarrow> bool" where
  "loopInv s \<longleftrightarrow>
     transitions (fsm s) = [tLoop] \<and> current (fsm s) = ''StateBar''
     \<and> exit (fsm s) = None \<and> enter (fsm s) = None \<and> transition (fsm s) = None
     \<and> exitStates (fsm s) ''StateBar'' = None \<and> enterStates (fsm s) ''StateBar'' = None"

text \<open>
  The example machine in \<^verbatim>\<open>StateFoo\<close> with all five kinds of callback registered, and in
  \<^verbatim>\<open>StateBar\<close> with the two global state callbacks registered.
\<close>

definition fiveFSM :: "unit FSM" where
  "fiveFSM =
     OnTransition (Some (TransitionFn 5))
       (OnEnter (Some (StateFn 4))
         (OnEnterState ''StateBar'' (StateFn 3)
           (OnExit (Some (StateFn 2))
             (OnExitState ''StateFoo'' (StateFn 1) (exFSM\<lparr>current := ''StateFoo''\<rparr>)))))"

definition fiveCfg :: "(unit, State list) cfg" where
  "fiveCfg = \<lparr>fsm = fiveFSM, world = [], calls = []\<rparr>"

definition twoCfg :: "(unit, State list) cfg" where
  "twoCfg = \<lparr>fsm = OnEnter (Some (StateFn 4)) (OnExit (Some (StateFn 2)) exFSM),
             world = [], calls = []\<rparr>"




section \<open>The error predicates\<close>

text \<open>
  C1. \<^verbatim>\<open>IsNoTransition\<close> is meant to hold exactly of the errors whose \<^verbatim>\<open>Source\<close> is empty. The
  code tests \<^verbatim>\<open>len(e.Source) > 0\<close>, as \<^verbatim>\<open>IsSuspended\<close> does: on the error that \<^verbatim>\<open>sendEvent\<close>
  returns when no transition matches, the method and the package-level function both
  return false, and on a suspended error both predicates return true.
\<close>

theorem IsNoTransition_false_on_no_transition_error:
  "TransitionError_IsNoTransition \<lparr>te_Event = ''EventFoo'', te_Source = [], te_Target = []\<rparr> = False
   \<and> IsNoTransition (ErrTransition \<lparr>te_Event = ''EventFoo'', te_Source = [], te_Target = []\<rparr>) = False
   \<and> TransitionError_IsNoTransition
         \<lparr>te_Event = ''EventFoo'', te_Source = ''StateBar'', te_Target = ''StateFoo''\<rparr> = True
   \<and> TransitionError_IsSuspended
         \<lparr>te_Event = ''EventFoo'', te_Source = ''StateBar'', te_Target = ''StateFoo''\<rparr> = True"
  by (simp add: TransitionError_IsNoTransition_def TransitionError_IsSuspended_def
      IsNoTransition_def)

section \<open>The transition table\<close>

lemma invalidTransitions_iff:
  "invalidTransitions ts \<longleftrightarrow> (\<exists>t \<in> set ts. Source t = [] \<or> Target t = [] \<or> Event t = [])"
  by (induction ts) auto

text \<open>
  C10. When some transition of the argument list has an empty source, target or event,
  \<^verbatim>\<open>AddTransitions\<close> panics and the machine, its table included, is as it was before the call,
  wherever the invalid transition stands in the list.
\<close>

theorem AddTransitions_invalid_atomic:
  assumes "t \<in> set ts" and "Source t = [] \<or> Target t = [] \<or> Event t = []"
  shows "AddTransitions ts f = (Panic PanicInvalidTransition, f)"
  using assms by (auto simp: AddTransitions_def invalidTransitions_iff)

theorem AddTransitions_invalid_atomic_witness:
  "tNoTarget \<in> set [tFooBar, tNoTarget] \<and> Target tNoTarget = []
   \<and> AddTransitions [tFooBar, tNoTarget] exFSM = (Panic PanicInvalidTransition, exFSM)
   \<and> transitions (snd (AddTransitions [tFooBar, tNoTarget] exFSM)) = [tBarFoo, tFooBar]"
proof -
  have a: "tNoTarget \<in> set [tFooBar, tNoTarget]" by simp
  have b: "Source tNoTarget = [] \<or> Target tNoTarget = [] \<or> Event tNoTarget = []"
    by (simp add: tNoTarget_def)
  show ?thesis
    using AddTransitions_invalid_atomic [OF a b, of exFSM] a
    by (simp add: tNoTarget_def exFSM_def)
qed

subsection \<open>Looking up a pair\<close>

lemma indexFrom_closed:
  "indexFrom i ts src ev =
     (if (src, ev) \<in> set (map key ts)
      then i + int (length (takeWhile (\<lambda>k. k \<noteq> (src, ev)) (map key ts)))
      else - 1)"
  by (induction ts arbitrary: i) (auto simp: key_def)

lemma indexFrom_keys: "map key ts = map key us \<Longrightarrow> indexFrom i ts src ev = indexFrom i us src ev"
  by (simp add: indexFrom_closed)

lemma takeWhile_lt: "x \<in> set ks \<Longrightarrow> length (takeWhile (\<lambda>k. k \<noteq> x) ks) < length ks"
  by (induction ks) auto

lemma takeWhile_nth: "x \<in> set ks \<Longrightarrow> ks ! length (takeWhile (\<lambda>k. k \<noteq> x) ks) = x"
  by (induction ks) auto

lemma indexFrom_hit:
  assumes "indexFrom 0 ts src ev > - 1"
  shows "nat (indexFrom 0 ts src ev) < length ts"
    and "key (ts ! nat (indexFrom 0 ts src ev)) = (src, ev)"
proof -
  from assms have m: "(src, ev) \<in> set (map key ts)"
    by (simp add: indexFrom_closed split: if_splits)
  then have ix: "nat (indexFrom 0 ts src ev) = length (takeWhile (\<lambda>k. k \<noteq> (src, ev)) (map key ts))"
    by (simp add: indexFrom_closed)
  from takeWhile_lt [OF m] show "nat (indexFrom 0 ts src ev) < length ts"
    by (simp add: ix)
  then show "key (ts ! nat (indexFrom 0 ts src ev)) = (src, ev)"
    using takeWhile_nth [OF m] by (simp add: ix)
qed

lemma indexFrom_miss: "\<not> indexFrom 0 ts src ev > - 1 \<Longrightarrow> (src, ev) \<notin> set (map key ts)"
  by (simp add: indexFrom_closed split: if_splits)

lemma keys_update: "i < length ts \<Longrightarrow> key (ts ! i) = key t \<Longrightarrow> map key (ts[i := t]) = map key ts"
  by (simp add: map_update list_update_same_conv)

lemma addLoop_distinct:
  "distinct (map key (transitions f)) \<Longrightarrow> distinct (map key (transitions (addLoop ts f)))"
proof (induction ts arbitrary: f)
  case Nil
  then show ?case by simp
next
  case (Cons t ts)
  show ?case
  proof (cases "indexFrom 0 (transitions f) (Source t) (Event t) > - 1")
    case True
    from indexFrom_hit [OF True]
    have "map key ((transitions f)[nat (indexFrom 0 (transitions f) (Source t) (Event t)) := t])
            = map key (transitions f)"
      by (intro keys_update) (simp_all add: key_def)
    with Cons.prems True show ?thesis
      by (simp add: indexTransition_def Cons.IH)
  next
    case False
    from indexFrom_miss [OF False] have "key t \<notin> set (map key (transitions f))"
      by (simp add: key_def)
    with Cons.prems False show ?thesis
      by (simp add: indexTransition_def Cons.IH)
  qed
qed

lemma applyOp_distinct:
  "distinct (map key (transitions f)) \<Longrightarrow> distinct (map key (transitions (applyOp x f)))"
  by (cases x) (simp_all add: AddTransitions_def addLoop_distinct Reset_def)

lemma runOps_distinct:
  "distinct (map key (transitions f)) \<Longrightarrow> distinct (map key (transitions (runOps xs f)))"
  by (induction xs arbitrary: f) (simp_all add: applyOp_distinct)

lemma entriesFor_keys: "length (entriesFor src ev ts) = count_list (map key ts) (src, ev)"
  by (induction ts) (auto simp: entriesFor_def key_def)

lemma distinct_count_le: "distinct ks \<Longrightarrow> count_list ks x \<le> 1"
  by (induction ks) (auto simp: count_list_0_iff)

subsection \<open>The uniqueness invariant\<close>

text \<open>
  C3. Starting from a newly created machine, after any sequence of \<^verbatim>\<open>AddTransitions\<close> calls and
  \<^verbatim>\<open>Reset\<close> calls the table holds at most one transition for any (source, event) pair.
\<close>

theorem table_unique_after_ops:
  "length (entriesFor src ev (transitions (runOps xs (New :: 'd FSM)))) \<le> 1"
proof -
  have "distinct (map key (transitions (New :: 'd FSM)))"
    by (simp add: New_def)
  then have "distinct (map key (transitions (runOps xs (New :: 'd FSM))))"
    by (rule runOps_distinct)
  from distinct_count_le [OF this] show ?thesis
    by (simp add: entriesFor_keys)
qed

theorem table_unique_after_ops_witness:
  "length (entriesFor ''StateBar'' ''EventFoo''
      (transitions (runOps [OpAddTransitions [tBarFoo, tFooBar], OpReset,
                            OpAddTransitions [tBarFoo, tFooBar, tBarBaz],
                            OpAddTransitions [tNoTarget]] (New :: unit FSM)))) \<le> 1
   \<and> transitions (runOps [OpAddTransitions [tBarFoo, tFooBar], OpReset,
                            OpAddTransitions [tBarFoo, tFooBar, tBarBaz],
                            OpAddTransitions [tNoTarget]] (New :: unit FSM))
       = [tBarBaz, tFooBar]"
  using table_unique_after_ops [of "''StateBar''" "''EventFoo''"
      "[OpAddTransitions [tBarFoo, tFooBar], OpReset,
        OpAddTransitions [tBarFoo, tFooBar, tBarBaz], OpAddTransitions [tNoTarget]]",
      where ?'d = unit]
  by (simp add: AddTransitions_def Reset_def New_def indexTransition_def
      tBarFoo_def tFooBar_def tBarBaz_def tNoTarget_def)

subsection \<open>Adding the same pair twice\<close>

lemma indexFrom_append_shift:
  "(src, ev) \<notin> set (map key ts) \<Longrightarrow> key t = (src, ev)
     \<Longrightarrow> indexFrom i (ts @ [t]) src ev = i + int (length ts)"
  by (induction ts arbitrary: i) (auto simp: key_def)

lemma indexFrom_append_new:
  "(src, ev) \<notin> set (map key ts) \<Longrightarrow> key t = (src, ev)
     \<Longrightarrow> indexFrom 0 (ts @ [t]) src ev = int (length ts)"
  by (simp add: indexFrom_append_shift)

lemma addLoop_one_position:
  fixes f :: "'d FSM"
  assumes "f1 = addLoop [t1] f" and "x = indexTransition f1 (Source t1) (Event t1)"
  shows "x > - 1 \<and> nat x < length (transitions f1) \<and> transitions f1 ! nat x = t1
         \<and> count_list (map key (transitions f1)) (key t1)
             = max 1 (count_list (map key (transitions f)) (key t1))"
proof (cases "indexFrom 0 (transitions f) (Source t1) (Event t1) > - 1")
  case True
  let ?k = "nat (indexFrom 0 (transitions f) (Source t1) (Event t1))"
  from indexFrom_hit [OF True]
  have k: "?k < length (transitions f)" and kk: "key (transitions f ! ?k) = key t1"
    by (simp_all add: key_def)
  have f1: "transitions f1 = (transitions f)[?k := t1]"
    using True assms(1) by (simp add: indexTransition_def)
  have keys: "map key (transitions f1) = map key (transitions f)"
    unfolding f1 using k kk by (rule keys_update)
  have x: "x = indexFrom 0 (transitions f) (Source t1) (Event t1)"
    unfolding assms(2) indexTransition_def using keys by (rule indexFrom_keys)
  have "key t1 \<in> set (map key (transitions f))"
    using k kk by (metis length_map nth_map nth_mem)
  then have "count_list (map key (transitions f)) (key t1) \<ge> 1"
    by (metis count_list_0_iff less_one not_less)
  then show ?thesis
    using True k by (simp add: x f1 keys [unfolded f1] max_def)
next
  case False
  from indexFrom_miss [OF False] have miss: "(Source t1, Event t1) \<notin> set (map key (transitions f))" .
  have f1: "transitions f1 = transitions f @ [t1]"
    using False assms(1) by (simp add: indexTransition_def)
  have x: "x = int (length (transitions f))"
    unfolding assms(2) indexTransition_def f1
    using miss by (rule indexFrom_append_new) (simp add: key_def)
  have "count_list (map key (transitions f)) (key t1) = 0"
    using miss by (simp add: count_list_0_iff key_def)
  then show ?thesis
    by (simp add: x f1)
qed

lemma filter_singleton:
  "length (filter P xs) = 1 \<Longrightarrow> x \<in> set xs \<Longrightarrow> P x \<Longrightarrow> filter P xs = [x]"
proof -
  assume a: "length (filter P xs) = 1" and b: "x \<in> set xs" and c: "P x"
  from a obtain y where y: "filter P xs = [y]"
    by (cases "filter P xs") auto
  from b c have "x \<in> set (filter P xs)" by simp
  with y show ?thesis by simp
qed

lemma addLoop_one_shape:
  fixes f :: "'d FSM"
  assumes "f1 = addLoop [t1] f" and "i = nat (indexTransition f1 (Source t1) (Event t1))"
  shows "f1 = f\<lparr>transitions :=
                 (if indexTransition f (Source t1) (Event t1) > - 1
                  then (transitions f)[i := t1] else transitions f @ [t1])\<rparr>
         \<and> (if indexTransition f (Source t1) (Event t1) > - 1
             then i = nat (indexTransition f (Source t1) (Event t1))
                  \<and> i < length (transitions f)
                  \<and> Source (transitions f ! i) = Source t1
                  \<and> Event (transitions f ! i) = Event t1
             else i = length (transitions f))"
proof (cases "indexFrom 0 (transitions f) (Source t1) (Event t1) > - 1")
  case True
  let ?k = "nat (indexFrom 0 (transitions f) (Source t1) (Event t1))"
  from indexFrom_hit [OF True]
  have k: "?k < length (transitions f)" and kk: "key (transitions f ! ?k) = key t1"
    by (simp_all add: key_def)
  have f1: "f1 = f\<lparr>transitions := (transitions f)[?k := t1]\<rparr>"
    using True assms(1) by (simp add: indexTransition_def)
  have keys: "map key (transitions f1) = map key (transitions f)"
    using keys_update [OF k kk] by (simp add: f1)
  have "indexFrom 0 (transitions f1) (Source t1) (Event t1)
          = indexFrom 0 (transitions f) (Source t1) (Event t1)"
    using keys by (rule indexFrom_keys)
  then have i: "i = ?k"
    by (simp add: assms(2) indexTransition_def)
  show ?thesis
    using True k kk by (simp add: i f1 indexTransition_def key_def)
next
  case False
  from indexFrom_miss [OF False]
  have miss: "(Source t1, Event t1) \<notin> set (map key (transitions f))" .
  have f1: "f1 = f\<lparr>transitions := transitions f @ [t1]\<rparr>"
    using False assms(1) by (simp add: indexTransition_def)
  have "indexFrom 0 (transitions f @ [t1]) (Source t1) (Event t1) = int (length (transitions f))"
    using miss by (rule indexFrom_append_new) (simp add: key_def)
  then have i: "i = length (transitions f)"
    by (simp add: assms(2) indexTransition_def f1)
  show ?thesis
    using False by (simp add: i f1 indexTransition_def)
qed

text \<open>
  C2. Two valid transitions \<open>t1\<close>, \<open>t2\<close> with the same source and event are added one after the
  other (in two calls, or in one call with both). Both calls return. The first call leaves
  the machine as it was but for its table: when the table had an entry for the pair, the
  first such entry, at position \<open>i\<close>, is replaced by \<open>t1\<close>; otherwise \<open>t1\<close> is appended, at
  position \<open>i\<close>, the old length. The second call changes nothing but position \<open>i\<close>, which
  then holds \<open>t2\<close>. So after both, the table is the one before the two calls with \<open>t2\<close> at
  position \<open>i\<close>: every other entry, the order and every other field of the machine are as
  they were. When the table held at most one entry for the pair before (as every table
  built by \<^verbatim>\<open>AddTransitions\<close> does), it holds exactly one afterwards, and that entry is \<open>t2\<close>,
  with its target and action.
\<close>

theorem AddTransitions_same_pair_twice:
  fixes f :: "'d FSM"
  assumes v1: "Source t1 \<noteq> [] \<and> Target t1 \<noteq> [] \<and> Event t1 \<noteq> []"
      and v2: "Source t2 \<noteq> [] \<and> Target t2 \<noteq> [] \<and> Event t2 \<noteq> []"
      and same: "Source t2 = Source t1 \<and> Event t2 = Event t1"
      and a1: "AddTransitions [t1] f = (r1, f1)"
      and a2: "AddTransitions [t2] f1 = (r2, f2)"
      and pos: "i = nat (indexTransition f1 (Source t1) (Event t1))"
  shows "r1 = Return () \<and> r2 = Return ()
         \<and> f1 = f\<lparr>transitions :=
                     (if indexTransition f (Source t1) (Event t1) > - 1
                      then (transitions f)[i := t1] else transitions f @ [t1])\<rparr>
         \<and> (if indexTransition f (Source t1) (Event t1) > - 1
             then i = nat (indexTransition f (Source t1) (Event t1))
                  \<and> i < length (transitions f)
                  \<and> Source (transitions f ! i) = Source t1
                  \<and> Event (transitions f ! i) = Event t1
             else i = length (transitions f))
         \<and> i < length (transitions f1) \<and> transitions f1 ! i = t1
         \<and> f2 = f1\<lparr>transitions := (transitions f1)[i := t2]\<rparr>
         \<and> f2 = f\<lparr>transitions :=
                     (if indexTransition f (Source t1) (Event t1) > - 1
                      then (transitions f)[i := t2] else transitions f @ [t2])\<rparr>
         \<and> (length (entriesFor (Source t1) (Event t1) (transitions f)) \<le> 1
              \<longrightarrow> entriesFor (Source t1) (Event t1) (transitions f2) = [t2])
         \<and> AddTransitions [t1, t2] f = (Return (), f2)"
proof -
  from a1 v1 have r1: "r1 = Return ()" and f1: "f1 = addLoop [t1] f"
    by (auto simp: AddTransitions_def)
  from a2 v2 have r2: "r2 = Return ()" and f2: "f2 = addLoop [t2] f1"
    by (auto simp: AddTransitions_def)
  from addLoop_one_shape [OF f1 pos]
  have shape: "f1 = f\<lparr>transitions :=
                     (if indexTransition f (Source t1) (Event t1) > - 1
                      then (transitions f)[i := t1] else transitions f @ [t1])\<rparr>"
    and where_i: "if indexTransition f (Source t1) (Event t1) > - 1
             then i = nat (indexTransition f (Source t1) (Event t1))
                  \<and> i < length (transitions f)
                  \<and> Source (transitions f ! i) = Source t1
                  \<and> Event (transitions f ! i) = Event t1
             else i = length (transitions f)"
    by blast+
  from addLoop_one_position [OF f1 refl]
  have x: "indexTransition f1 (Source t1) (Event t1) > - 1"
    and il: "i < length (transitions f1)" and it: "transitions f1 ! i = t1"
    and cnt: "count_list (map key (transitions f1)) (key t1)
                = max 1 (count_list (map key (transitions f)) (key t1))"
    by (simp_all add: pos)
  have upd: "f2 = f1\<lparr>transitions := (transitions f1)[i := t2]\<rparr>"
    using x same by (simp add: f2 pos)
  have whole: "f2 = f\<lparr>transitions :=
                     (if indexTransition f (Source t1) (Event t1) > - 1
                      then (transitions f)[i := t2] else transitions f @ [t2])\<rparr>"
  proof (cases "indexTransition f (Source t1) (Event t1) > - 1")
    case True
    with shape have "f1 = f\<lparr>transitions := (transitions f)[i := t1]\<rparr>" by simp
    with True show ?thesis by (simp add: upd)
  next
    case False
    with shape where_i have "f1 = f\<lparr>transitions := transitions f @ [t1]\<rparr>"
      and "i = length (transitions f)" by simp_all
    with False show ?thesis by (simp add: upd)
  qed
  have keys: "map key (transitions f2) = map key (transitions f1)"
    unfolding upd using il it same by (simp add: keys_update key_def)
  have one: "entriesFor (Source t1) (Event t1) (transitions f2) = [t2]"
    if u: "length (entriesFor (Source t1) (Event t1) (transitions f)) \<le> 1"
  proof -
    from u have "count_list (map key (transitions f)) (key t1) \<le> 1"
      by (simp add: entriesFor_keys key_def)
    with cnt have "length (entriesFor (Source t1) (Event t1) (transitions f2)) = 1"
      by (simp add: entriesFor_keys keys key_def [symmetric])
    moreover have "t2 \<in> set (transitions f2)"
      unfolding upd using il by (simp add: set_update_memI)
    ultimately show ?thesis
      unfolding entriesFor_def using same by (intro filter_singleton) simp_all
  qed
  have both: "AddTransitions [t1, t2] f = (Return (), f2)"
    using v1 v2 by (simp add: AddTransitions_def f2 f1 Let_def)
  from r1 r2 shape where_i il it upd whole one both show ?thesis by blast
qed

theorem AddTransitions_same_pair_twice_witness:
  "Source tVeto \<noteq> [] \<and> Target tVeto \<noteq> [] \<and> Event tVeto \<noteq> []
   \<and> Source tBarBaz \<noteq> [] \<and> Target tBarBaz \<noteq> [] \<and> Event tBarBaz \<noteq> []
   \<and> Source tBarBaz = Source tVeto \<and> Event tBarBaz = Event tVeto
   \<and> AddTransitions [tVeto] (exFSM\<lparr>transitions := [tFooBar, tBarFoo, tBarOnBar]\<rparr>)
       = (Return (), exFSM\<lparr>transitions := [tFooBar, tVeto, tBarOnBar]\<rparr>)
   \<and> AddTransitions [tBarBaz] (exFSM\<lparr>transitions := [tFooBar, tVeto, tBarOnBar]\<rparr>)
       = (Return (), exFSM\<lparr>transitions := [tFooBar, tBarBaz, tBarOnBar]\<rparr>)
   \<and> nat (indexTransition (exFSM\<lparr>transitions := [tFooBar, tVeto, tBarOnBar]\<rparr>)
              (Source tVeto) (Event tVeto)) = 1
   \<and> indexTransition (exFSM\<lparr>transitions := [tFooBar, tBarFoo, tBarOnBar]\<rparr>)
        (Source tVeto) (Event tVeto) = 1
   \<and> length (entriesFor (Source tVeto) (Event tVeto) [tFooBar, tBarFoo, tBarOnBar]) \<le> 1
   \<and> entriesFor (Source tVeto) (Event tVeto) [tFooBar, tBarBaz, tBarOnBar] = [tBarBaz]
   \<and> AddTransitions [tVeto, tBarBaz] (exFSM\<lparr>transitions := [tFooBar, tBarFoo, tBarOnBar]\<rparr>)
       = (Return (), exFSM\<lparr>transitions := [tFooBar, tBarBaz, tBarOnBar]\<rparr>)
   \<and> AddTransitions [tBarFoo] (exFSM\<lparr>transitions := [tFooBar, tBarOnBar]\<rparr>)
       = (Return (), exFSM\<lparr>transitions := [tFooBar, tBarOnBar, tBarFoo]\<rparr>)
   \<and> AddTransitions [tBarBaz] (exFSM\<lparr>transitions := [tFooBar, tBarOnBar, tBarFoo]\<rparr>)
       = (Return (), exFSM\<lparr>transitions := [tFooBar, tBarOnBar, tBarBaz]\<rparr>)
   \<and> nat (indexTransition (exFSM\<lparr>transitions := [tFooBar, tBarOnBar, tBarFoo]\<rparr>)
              (Source tBarFoo) (Event tBarFoo)) = 2
   \<and> indexTransition (exFSM\<lparr>transitions := [tFooBar, tBarOnBar]\<rparr>)
        (Source tBarFoo) (Event tBarFoo) = - 1
   \<and> AddTransitions [tBarFoo, tBarBaz] (exFSM\<lparr>transitions := [tFooBar, tBarOnBar]\<rparr>)
       = (Return (), exFSM\<lparr>transitions := [tFooBar, tBarOnBar, tBarBaz]\<rparr>)"
proof -
  let ?f = "exFSM\<lparr>transitions := [tFooBar, tBarFoo, tBarOnBar]\<rparr>"
  let ?f1 = "exFSM\<lparr>transitions := [tFooBar, tVeto, tBarOnBar]\<rparr>"
  let ?f2 = "exFSM\<lparr>transitions := [tFooBar, tBarBaz, tBarOnBar]\<rparr>"
  let ?g = "exFSM\<lparr>transitions := [tFooBar, tBarOnBar]\<rparr>"
  let ?g1 = "exFSM\<lparr>transitions := [tFooBar, tBarOnBar, tBarFoo]\<rparr>"
  let ?g2 = "exFSM\<lparr>transitions := [tFooBar, tBarOnBar, tBarBaz]\<rparr>"
  have v1: "Source tVeto \<noteq> [] \<and> Target tVeto \<noteq> [] \<and> Event tVeto \<noteq> []"
    by (simp add: tVeto_def)
  have v1': "Source tBarFoo \<noteq> [] \<and> Target tBarFoo \<noteq> [] \<and> Event tBarFoo \<noteq> []"
    by (simp add: tBarFoo_def)
  have v2: "Source tBarBaz \<noteq> [] \<and> Target tBarBaz \<noteq> [] \<and> Event tBarBaz \<noteq> []"
    by (simp add: tBarBaz_def)
  have same: "Source tBarBaz = Source tVeto \<and> Event tBarBaz = Event tVeto"
    by (simp add: tVeto_def tBarBaz_def)
  have same': "Source tBarBaz = Source tBarFoo \<and> Event tBarBaz = Event tBarFoo"
    by (simp add: tBarFoo_def tBarBaz_def)
  have a1: "AddTransitions [tVeto] ?f = (Return (), ?f1)"
    by (simp add: AddTransitions_def indexTransition_def exFSM_def tBarFoo_def tFooBar_def
        tVeto_def tBarOnBar_def)
  have a2: "AddTransitions [tBarBaz] ?f1 = (Return (), ?f2)"
    by (simp add: AddTransitions_def indexTransition_def exFSM_def tBarFoo_def tFooBar_def
        tVeto_def tBarOnBar_def tBarBaz_def)
  have pos: "1 = nat (indexTransition ?f1 (Source tVeto) (Event tVeto))"
    by (simp add: indexTransition_def exFSM_def tVeto_def tFooBar_def tBarOnBar_def)
  have hit: "indexTransition ?f (Source tVeto) (Event tVeto) = 1"
    by (simp add: indexTransition_def exFSM_def tVeto_def tFooBar_def tBarFoo_def tBarOnBar_def)
  have u: "length (entriesFor (Source tVeto) (Event tVeto) [tFooBar, tBarFoo, tBarOnBar]) \<le> 1"
    by (simp add: entriesFor_def tVeto_def tFooBar_def tBarFoo_def tBarOnBar_def)
  have b1: "AddTransitions [tBarFoo] ?g = (Return (), ?g1)"
    by (simp add: AddTransitions_def indexTransition_def exFSM_def tBarFoo_def tFooBar_def
        tBarOnBar_def)
  have b2: "AddTransitions [tBarBaz] ?g1 = (Return (), ?g2)"
    by (simp add: AddTransitions_def indexTransition_def exFSM_def tBarFoo_def tFooBar_def
        tBarOnBar_def tBarBaz_def)
  have pos': "2 = nat (indexTransition ?g1 (Source tBarFoo) (Event tBarFoo))"
    by (simp add: indexTransition_def exFSM_def tBarFoo_def tFooBar_def tBarOnBar_def)
  have miss: "indexTransition ?g (Source tBarFoo) (Event tBarFoo) = - 1"
    by (simp add: indexTransition_def exFSM_def tFooBar_def tBarFoo_def tBarOnBar_def)
  note hitcase = AddTransitions_same_pair_twice [OF v1 v2 same a1 a2 pos]
  note appcase = AddTransitions_same_pair_twice [OF v1' v2 same' b1 b2 pos']
  from hitcase u
  have e: "entriesFor (Source tVeto) (Event tVeto) [tFooBar, tBarBaz, tBarOnBar] = [tBarBaz]"
    by simp
  from hitcase have both: "AddTransitions [tVeto, tBarBaz] ?f = (Return (), ?f2)"
    by blast
  from appcase have both': "AddTransitions [tBarFoo, tBarBaz] ?g = (Return (), ?g2)"
    by blast
  from v1 v2 same a1 a2 pos [symmetric] hit u e both b1 b2 pos' [symmetric] miss both'
  show ?thesis by blast
qed

section \<open>Dispatch of one event\<close>

lemma indexFrom_found_iff:
  "indexFrom 0 ts src ev > - 1 \<longleftrightarrow> (\<exists>t \<in> set ts. Source t = src \<and> Event t = ev)"
  by (auto simp: indexFrom_closed key_def)

lemma sendEventRange_find:
  "sendEventRange E ev d cur ts s =
     (case find (\<lambda>t. Source t = cur \<and> Event t = ev) ts of
        None \<Rightarrow> (Return (ErrTransition \<lparr>te_Event = ev, te_Source = [], te_Target = []\<rparr>), s)
      | Some t \<Rightarrow> fireTransition E ev d cur t s)"
  by (induction ts) simp_all

lemma find_indexFrom:
  "indexFrom i ts src ev > - 1 \<Longrightarrow> i \<ge> 0 \<Longrightarrow>
     find (\<lambda>t. Source t = src \<and> Event t = ev) ts = Some (ts ! nat (indexFrom i ts src ev - i))"
proof (induction ts arbitrary: i)
  case Nil
  then show ?case by simp
next
  case (Cons t ts)
  show ?case
  proof (cases "Source t = src \<and> Event t = ev")
    case True
    then show ?thesis by simp
  next
    case False
    with Cons.prems have hit: "indexFrom (i + 1) ts src ev > - 1" by simp
    have ge: "indexFrom (i + 1) ts src ev \<ge> i + 1"
      using hit by (simp add: indexFrom_closed split: if_splits)
    have "nat (indexFrom (i + 1) ts src ev - i) = Suc (nat (indexFrom (i + 1) ts src ev - (i + 1)))"
      using ge by simp
    with False Cons.IH [OF hit] Cons.prems(2) show ?thesis by auto
  qed
qed

lemma sendEvent_matched:
  assumes "GetTransition (fsm s) (current (fsm s)) ev = (t, True)"
  shows "sendEvent E ev d s = fireTransition E ev d (current (fsm s)) t s"
proof -
  from assms have hit: "indexFrom 0 (transitions (fsm s)) (current (fsm s)) ev > - 1"
    and t: "t = transitions (fsm s) ! nat (indexFrom 0 (transitions (fsm s)) (current (fsm s)) ev)"
    by (auto simp: GetTransition_def indexTransition_def Let_def split: if_splits)
  from find_indexFrom [OF hit] t
  have "find (\<lambda>t. Source t = current (fsm s) \<and> Event t = ev) (transitions (fsm s)) = Some t"
    by simp
  then show ?thesis
    by (simp add: sendEvent_def Current_def Transitions_def sendEventRange_find)
qed

lemma GetTransition_matches:
  assumes "GetTransition f src ev = (t, True)"
  shows "t \<in> set (transitions f) \<and> Source t = src \<and> Event t = ev"
proof -
  from assms have hit: "indexFrom 0 (transitions f) src ev > - 1"
    and t: "t = transitions f ! nat (indexFrom 0 (transitions f) src ev)"
    by (auto simp: GetTransition_def indexTransition_def Let_def split: if_splits)
  from find_indexFrom [OF hit] t
  have "find (\<lambda>t. Source t = src \<and> Event t = ev) (transitions f) = Some t"
    by simp
  then show ?thesis
    by (auto simp: find_Some_iff)
qed

lemma sendEvent_unmatched:
  assumes "\<not> (\<exists>t \<in> set (transitions (fsm s)). Source t = current (fsm s) \<and> Event t = ev)"
  shows "sendEvent E ev d s =
           (Return (ErrTransition \<lparr>te_Event = ev, te_Source = [], te_Target = []\<rparr>), s)"
proof -
  from assms
  have "find (\<lambda>t. Source t = current (fsm s) \<and> Event t = ev) (transitions (fsm s)) = None"
    by (simp add: find_None_iff)
  then show ?thesis
    by (simp add: sendEvent_def Current_def Transitions_def sendEventRange_find)
qed

lemmas dispatch_defs =
  SendEventIter_def sendEvent_def Current_def Transitions_def fireTransition_def
  actionVetoes_def callAction_def fireExitState_def fireExit_def fireEnterState_def
  fireEnter_def fireOnTransition_def callState_def callTransition_def SetCurrent_def
  SetEvent_def chainStops_def IsSuspended_def TransitionError_IsSuspended_def
  GetTransition_def indexTransition_def Let_def

lemmas example_defs =
  exEnv_def exCfg_def exFSM_def New_def tFooBar_def tBarFoo_def tVeto_def tVetoChain_def
  tBarOnBar_def vetoCfg_def vetoChainCfg_def fiveCfg_def fiveFSM_def twoCfg_def
  OnEnter_def OnExit_def OnEnterState_def OnExitState_def OnTransition_def

text \<open>
  C9. \<^verbatim>\<open>TestEvent\<close> returns true exactly when some transition of the table has the current
  state as its source and the given event, and it leaves the machine, the world and the
  list of calls made as they are: no action and no callback is called, whether or not the
  matching transition carries an action.
\<close>

theorem TestEvent_reads_only:
  "TestEvent ev s =
     ((\<exists>t \<in> set (transitions (fsm s)). Source t = current (fsm s) \<and> Event t = ev), s)"
  by (simp add: TestEvent_def indexTransition_def Current_def indexFrom_found_iff)

theorem TestEvent_reads_only_witness:
  "TestEvent ''EventFoo'' exCfg = (True, exCfg)
   \<and> TestEvent ''EventBar'' exCfg = (False, exCfg)
   \<and> GetTransition exFSM ''StateBar'' ''EventFoo'' = (tBarFoo, True)
   \<and> Action tBarFoo = Some (ActionFn 0)
   \<and> calls (snd (TestEvent ''EventFoo'' exCfg)) = []"
  using TestEvent_reads_only [of "''EventFoo''" exCfg]
    TestEvent_reads_only [of "''EventBar''" exCfg]
  by (simp add: exCfg_def exFSM_def tBarFoo_def tFooBar_def GetTransition_def
      indexTransition_def)

subsection \<open>The loop of SendEvent\<close>

lemma SendEventLoop_panic:
  "SendEventIter E ev d s = (Panic p, s1) \<Longrightarrow> SendEventLoop E ev d s = Some (Panic p, s1)"
  by (simp add: SendEventLoop.simps [of E ev d s])

lemma SendEventLoop_stop:
  "SendEventIter E ev d s = (Return err, s1) \<Longrightarrow> chainStops err s1
     \<Longrightarrow> SendEventLoop E ev d s = Some (Return err, s1)"
  by (simp add: SendEventLoop.simps [of E ev d s])

lemma SendEventLoop_link:
  "SendEventIter E ev d s = (Return err, s1) \<Longrightarrow> \<not> chainStops err s1
     \<Longrightarrow> SendEventLoop E ev d s = SendEventLoop E (event (fsm s1)) (data (fsm s1)) s1"
  by (simp add: SendEventLoop.simps [of E ev d s])





lemma fuel_imp_loop:
  "SendEventFuel n E ev d s = Some out \<Longrightarrow> SendEventLoop E ev d s = Some out"
proof (induction n arbitrary: ev d s)
  case 0
  then show ?case by simp
next
  case (Suc n)
  obtain r s1 where it: "SendEventIter E ev d s = (r, s1)"
    by (cases "SendEventIter E ev d s")
  show ?case
  proof (cases r)
    case (Panic p)
    with Suc.prems it have out: "out = (Panic p, s1)" by simp
    from it Panic have "SendEventIter E ev d s = (Panic p, s1)" by simp
    then show ?thesis unfolding out by (rule SendEventLoop_panic)
  next
    case (Return err)
    from it Return have it': "SendEventIter E ev d s = (Return err, s1)" by simp
    show ?thesis
    proof (cases "chainStops err s1")
      case True
      with Suc.prems it' have out: "out = (Return err, s1)" by simp
      from it' True show ?thesis unfolding out by (rule SendEventLoop_stop)
    next
      case False
      with Suc.prems it Return
      have "SendEventFuel n E (event (fsm s1)) (data (fsm s1)) s1 = Some out" by simp
      then have "SendEventLoop E (event (fsm s1)) (data (fsm s1)) s1 = Some out"
        by (rule Suc.IH)
      with SendEventLoop_link [OF it' False] show ?thesis by simp
    qed
  qed
qed

lemma loop_imp_fuel:
  assumes "SendEventLoop E ev d s = Some out"
  shows "\<exists>n. SendEventFuel n E ev d s = Some out"
proof (rule SendEventLoop.raw_induct
    [where P = "\<lambda>E ev d s out. \<exists>n. SendEventFuel n E ev d s = Some out", OF _ assms],
    goal_cases)
  case (1 loop E ev d s out)
  obtain r s1 where it: "SendEventIter E ev d s = (r, s1)"
    by (cases "SendEventIter E ev d s")
  show ?case
  proof (cases r)
    case (Panic p)
    with 1(2) it have out: "out = (Panic p, s1)" by simp
    have "SendEventFuel (Suc 0) E ev d s = Some out"
      unfolding out using it Panic by simp
    then show ?thesis ..
  next
    case (Return err)
    show ?thesis
    proof (cases "chainStops err s1")
      case True
      with 1(2) it Return have out: "out = (Return err, s1)" by simp
      have "SendEventFuel (Suc 0) E ev d s = Some out"
        unfolding out using it Return True by simp
      then show ?thesis ..
    next
      case False
      with 1(2) it Return have "loop E (event (fsm s1)) (data (fsm s1)) s1 = Some out"
        by simp
      then obtain n where "SendEventFuel n E (event (fsm s1)) (data (fsm s1)) s1 = Some out"
        using 1(1) by blast
      with it Return False have "SendEventFuel (Suc n) E ev d s = Some out" by simp
      then show ?thesis ..
    qed
  qed
qed

text \<open>
  C4. For a non-empty event that no transition of the table matches in the current state,
  \<^verbatim>\<open>SendEvent\<close> returns a \<^verbatim>\<open>TransitionError\<close> with that event and empty source and target. The
  current state, the table and the callback registrations are unchanged and nothing is
  called; the only write is the clearing of the pending chained event at the start of
  the loop.
\<close>

theorem SendEvent_no_transition:
  assumes "ev \<noteq> []"
      and "\<not> (\<exists>t \<in> set (transitions (fsm s)). Source t = current (fsm s) \<and> Event t = ev)"
  shows "\<exists>s'. SendEvent E ev d s =
                 Some (Return (ErrTransition \<lparr>te_Event = ev, te_Source = [], te_Target = []\<rparr>), s')
           \<and> s' = s\<lparr>fsm := (fsm s)\<lparr>event := [], data := None\<rparr>\<rparr>
           \<and> current (fsm s') = current (fsm s)
           \<and> transitions (fsm s') = transitions (fsm s)
           \<and> exit (fsm s') = exit (fsm s) \<and> enter (fsm s') = enter (fsm s)
           \<and> transition (fsm s') = transition (fsm s)
           \<and> exitStates (fsm s') = exitStates (fsm s)
           \<and> enterStates (fsm s') = enterStates (fsm s)
           \<and> world s' = world s \<and> calls s' = calls s"
proof -
  let ?s0 = "s\<lparr>fsm := SetEvent [] None (fsm s)\<rparr>"
  have "\<not> (\<exists>t \<in> set (transitions (fsm ?s0)). Source t = current (fsm ?s0) \<and> Event t = ev)"
    using assms(2) by (simp add: SetEvent_def)
  from sendEvent_unmatched [OF this]
  have it: "SendEventIter E ev d s =
              (Return (ErrTransition \<lparr>te_Event = ev, te_Source = [], te_Target = []\<rparr>), ?s0)"
    by (simp add: SendEventIter_def)
  have "SendEventLoop E ev d s =
          Some (Return (ErrTransition \<lparr>te_Event = ev, te_Source = [], te_Target = []\<rparr>), ?s0)"
    by (subst SendEventLoop.simps) (simp add: it chainStops_def SetEvent_def)
  with assms(1) show ?thesis
    by (simp add: SendEvent_def SetEvent_def)
qed

theorem SendEvent_no_transition_witness:
  "''EventBar'' \<noteq> []
   \<and> \<not> (\<exists>t \<in> set (transitions (fsm exCfg)).
            Source t = current (fsm exCfg) \<and> Event t = ''EventBar'')
   \<and> SendEvent exEnv ''EventBar'' None (exCfg\<lparr>fsm := SetEvent ''EventFoo'' None exFSM\<rparr>)
       = Some (Return (ErrTransition \<lparr>te_Event = ''EventBar'', te_Source = [], te_Target = []\<rparr>),
               exCfg)"
proof -
  have a: "''EventBar'' \<noteq> []" by simp
  have b: "\<not> (\<exists>t \<in> set (transitions (fsm (exCfg\<lparr>fsm := SetEvent ''EventFoo'' None exFSM\<rparr>))).
            Source t = current (fsm (exCfg\<lparr>fsm := SetEvent ''EventFoo'' None exFSM\<rparr>))
            \<and> Event t = ''EventBar'')"
    by (simp add: exCfg_def exFSM_def tBarFoo_def tFooBar_def SetEvent_def)
  from SendEvent_no_transition [OF a b, of exEnv None] b
  show ?thesis
    by (simp add: exCfg_def exFSM_def SetEvent_def New_def)
qed

subsection \<open>A matched transition\<close>




lemma GetTransition_cleared:
  "GetTransition (SetEvent x y f) (current (SetEvent x y f)) ev = GetTransition f (current f) ev"
  by (simp add: GetTransition_def indexTransition_def SetEvent_def Let_def)

lemma SendEventIter_matched:
  assumes "GetTransition (fsm s) (current (fsm s)) ev = (t, True)"
  shows "SendEventIter E ev d s =
           fireTransition E ev d (current (fsm s)) t (s\<lparr>fsm := SetEvent [] None (fsm s)\<rparr>)"
proof -
  let ?s0 = "s\<lparr>fsm := SetEvent [] None (fsm s)\<rparr>"
  have "GetTransition (fsm ?s0) (current (fsm ?s0)) ev = (t, True)"
    using assms by (simp add: GetTransition_cleared)
  from sendEvent_matched [OF this] show ?thesis
    by (simp add: SendEventIter_def SetEvent_def)
qed



text \<open>
  C5, as stated, fails. The event \<^verbatim>\<open>EventFoo\<close> is matched in \<^verbatim>\<open>StateBar\<close> by a transition whose
  action returns false after chaining \<^verbatim>\<open>EventBar\<close>: the loop of \<^verbatim>\<open>SendEvent\<close> goes on after the
  suspended error, dispatches \<^verbatim>\<open>EventBar\<close>, and the call returns nil with the current state
  changed to \<^verbatim>\<open>StateBaz\<close>.
\<close>

theorem SendEvent_veto_after_chaining:
  "GetTransition (fsm vetoChainCfg) (current (fsm vetoChainCfg)) ''EventFoo'' = (tVetoChain, True)
   \<and> Action tVetoChain = Some (ActionFn 2)
   \<and> fst (callAction exEnv (ActionFn 2) None
             (vetoChainCfg\<lparr>fsm := SetEvent [] None (fsm vetoChainCfg)\<rparr>)) = False
   \<and> current (fsm vetoChainCfg) = ''StateBar''
   \<and> SendEvent exEnv ''EventFoo'' None vetoChainCfg
       = Some (Return ErrNil,
               vetoChainCfg\<lparr>fsm := (fsm vetoChainCfg)\<lparr>current := ''StateBaz''\<rparr>,
                             calls := [CallAction (ActionFn 2) None]\<rparr>)"
proof -
  have "SendEventFuel (Suc (Suc 0)) exEnv ''EventFoo'' None vetoChainCfg
       = Some (Return ErrNil,
               vetoChainCfg\<lparr>fsm := (fsm vetoChainCfg)\<lparr>current := ''StateBaz''\<rparr>,
                             calls := [CallAction (ActionFn 2) None]\<rparr>)"
    by (simp add: dispatch_defs example_defs)
  from fuel_imp_loop [OF this] show ?thesis
    by (simp add: SendEvent_def) (simp add: dispatch_defs example_defs)
qed

text \<open>
  C5, amended. When the event is matched by a transition whose action returns false and
  leaves no chained event pending, \<^verbatim>\<open>SendEvent\<close> returns the \<^verbatim>\<open>TransitionError\<close> with the
  event and the source and target of that transition, and the configuration is the one
  the action left: no callback is called and \<^verbatim>\<open>SendEvent\<close> itself writes nothing after the
  action, the current state in particular.
\<close>

theorem SendEvent_suspended:
  assumes ev: "ev \<noteq> []"
      and m: "GetTransition (fsm s) (current (fsm s)) ev = (t, True)"
      and act: "Action t = Some a"
      and veto: "callAction E a d (s\<lparr>fsm := SetEvent [] None (fsm s)\<rparr>) = (False, s1)"
      and nochain: "event (fsm s1) = []"
  shows "SendEvent E ev d s =
           Some (Return (ErrTransition
                   \<lparr>te_Event = ev, te_Source = Source t, te_Target = Target t\<rparr>), s1)
         \<and> calls s1 = calls s @ [CallAction a d]"
proof -
  have it: "SendEventIter E ev d s =
              (Return (ErrTransition
                 \<lparr>te_Event = ev, te_Source = Source t, te_Target = Target t\<rparr>), s1)"
    using act veto by (simp add: SendEventIter_matched [OF m] fireTransition_def actionVetoes_def)
  have "chainStops (ErrTransition \<lparr>te_Event = ev, te_Source = Source t, te_Target = Target t\<rparr>) s1"
    using nochain by (simp add: chainStops_def)
  from SendEventLoop_stop [OF it this] ev
  have "SendEvent E ev d s =
           Some (Return (ErrTransition
                   \<lparr>te_Event = ev, te_Source = Source t, te_Target = Target t\<rparr>), s1)"
    by (simp add: SendEvent_def)
  moreover have "calls s1 = calls s @ [CallAction a d]"
    using veto by (auto simp: callAction_def split: prod.splits)
  ultimately show ?thesis ..
qed

theorem SendEvent_suspended_witness:
  "''EventFoo'' \<noteq> []
   \<and> GetTransition (fsm vetoCfg) (current (fsm vetoCfg)) ''EventFoo'' = (tVeto, True)
   \<and> Action tVeto = Some (ActionFn 1)
   \<and> callAction exEnv (ActionFn 1) None (vetoCfg\<lparr>fsm := SetEvent [] None (fsm vetoCfg)\<rparr>)
       = (False, vetoCfg\<lparr>calls := [CallAction (ActionFn 1) None]\<rparr>)
   \<and> event (fsm (vetoCfg\<lparr>calls := [CallAction (ActionFn 1) None]\<rparr>)) = []
   \<and> SendEvent exEnv ''EventFoo'' None vetoCfg
       = Some (Return (ErrTransition \<lparr>te_Event = ''EventFoo'', te_Source = ''StateBar'',
                                      te_Target = ''StateFoo''\<rparr>),
               vetoCfg\<lparr>calls := [CallAction (ActionFn 1) None]\<rparr>)
   \<and> current (fsm (vetoCfg\<lparr>calls := [CallAction (ActionFn 1) None]\<rparr>)) = ''StateBar''"
proof -
  have ev: "''EventFoo'' \<noteq> []" by simp
  have m: "GetTransition (fsm vetoCfg) (current (fsm vetoCfg)) ''EventFoo'' = (tVeto, True)"
    by (simp add: dispatch_defs example_defs)
  have act: "Action tVeto = Some (ActionFn 1)"
    by (simp add: tVeto_def)
  have veto: "callAction exEnv (ActionFn 1) None (vetoCfg\<lparr>fsm := SetEvent [] None (fsm vetoCfg)\<rparr>)
       = (False, vetoCfg\<lparr>calls := [CallAction (ActionFn 1) None]\<rparr>)"
    by (simp add: dispatch_defs example_defs)
  have nochain: "event (fsm (vetoCfg\<lparr>calls := [CallAction (ActionFn 1) None]\<rparr>)) = []"
    by (simp add: example_defs)
  have cur: "current (fsm (vetoCfg\<lparr>calls := [CallAction (ActionFn 1) None]\<rparr>)) = ''StateBar''"
    by (simp add: example_defs)
  from SendEvent_suspended [OF ev m act veto nochain] ev m act veto nochain cur
  show ?thesis by (simp add: tVeto_def)
qed

section \<open>Chained events\<close>







lemma twoCfg_fuel:
  "SendEventFuel (Suc (Suc 0)) exEnv ''EventFoo'' None twoCfg
     = Some (Return ErrNil,
             twoCfg\<lparr>world := [''StateBar'', ''StateFoo'', ''StateFoo'', ''StateBar''],
                    calls := [CallAction (ActionFn 0) None, CallExit (StateFn 2) ''StateBar'',
                              CallEnter (StateFn 4) ''StateFoo'',
                              CallExit (StateFn 2) ''StateFoo'',
                              CallEnter (StateFn 4) ''StateBar'']\<rparr>)"
  by (simp add: dispatch_defs example_defs)








subsection \<open>A chain that never ends\<close>

lemma loopInv_step:
  assumes "loopInv s"
  shows "\<exists>s'. SendEventIter exEnv ''EventFoo'' d s = (Return ErrNil, s')
           \<and> loopInv s' \<and> event (fsm s') = ''EventFoo''"
  using assms
  by (simp add: loopInv_def SendEventIter_def sendEvent_def Current_def Transitions_def
      fireTransition_def actionVetoes_def callAction_def fireExitState_def fireExit_def
      fireEnterState_def fireEnter_def fireOnTransition_def SetCurrent_def SetEvent_def
      exEnv_def tLoop_def Let_def)

lemma loop_never_returns:
  assumes "SendEventLoop E ev d s = Some out"
  shows "\<not> (E = exEnv \<and> ev = ''EventFoo'' \<and> loopInv s)"
proof (rule SendEventLoop.raw_induct
    [where P = "\<lambda>E ev d s out. \<not> (E = exEnv \<and> ev = ''EventFoo'' \<and> loopInv s)", OF _ assms],
    goal_cases)
  case (1 loop E ev d s out)
  show ?case
  proof
    assume h: "E = exEnv \<and> ev = ''EventFoo'' \<and> loopInv s"
    then obtain s' where it: "SendEventIter E ev d s = (Return ErrNil, s')"
      and inv: "loopInv s'" and e: "event (fsm s') = ''EventFoo''"
      using loopInv_step [of s d] by auto
    have "\<not> chainStops ErrNil s'"
      using e by (simp add: chainStops_def)
    with 1(2) it have "loop E (event (fsm s')) (data (fsm s')) s' = Some out"
      by simp
    from 1(1) [OF this] h inv e show False by simp
  qed
qed

text \<open>
  C8, as stated, fails. A transition from \<^verbatim>\<open>StateBar\<close> to itself whose action chains the event
  that fires it: every iteration ends with that event pending and with nil, and
  \<^verbatim>\<open>SendEvent\<close> never returns.
\<close>

theorem SendEvent_self_chain_never_returns:
  "SendEvent exEnv ''EventFoo'' None loopCfg = None"
proof -
  have "loopInv loopCfg"
    by (simp add: loopInv_def loopCfg_def exCfg_def exFSM_def New_def)
  then have "SendEventLoop exEnv ''EventFoo'' None loopCfg \<noteq> Some out" for out
    using loop_never_returns [of exEnv "''EventFoo''" None loopCfg out] by blast
  then have "SendEventLoop exEnv ''EventFoo'' None loopCfg = None"
    by (cases "SendEventLoop exEnv ''EventFoo'' None loopCfg") auto
  then show ?thesis by (simp add: SendEvent_def)
qed

text \<open>
  C8, amended. For a non-empty event, \<^verbatim>\<open>SendEvent\<close> returns \<open>out\<close> exactly when some finite
  number of iterations reaches the \<^verbatim>\<open>break\<close> with \<open>out\<close>; in particular it returns after one
  iteration, with that iteration's result, whenever the first iteration leaves no chained
  event pending.
\<close>

theorem SendEvent_returns_iff_chain_finite:
  assumes "ev \<noteq> []"
  shows "(SendEvent E ev d s = Some out \<longleftrightarrow> (\<exists>n. SendEventFuel n E ev d s = Some out))
         \<and> (event (fsm (snd (SendEventIter E ev d s))) = []
              \<longrightarrow> SendEvent E ev d s = Some (SendEventIter E ev d s)
                  \<and> SendEventFuel 1 E ev d s = Some (SendEventIter E ev d s))"
proof -
  have a: "SendEvent E ev d s = Some out \<longleftrightarrow> (\<exists>n. SendEventFuel n E ev d s = Some out)"
    using assms by (auto simp: SendEvent_def dest: loop_imp_fuel fuel_imp_loop)
  have b: "SendEventFuel 1 E ev d s = Some (SendEventIter E ev d s)"
    if "event (fsm (snd (SendEventIter E ev d s))) = []"
  proof -
    obtain r s1 where it: "SendEventIter E ev d s = (r, s1)"
      by (cases "SendEventIter E ev d s")
    with that show ?thesis
      by (cases r) (simp_all add: chainStops_def)
  qed
  have c: "SendEvent E ev d s = Some (SendEventIter E ev d s)"
    if "event (fsm (snd (SendEventIter E ev d s))) = []"
    using fuel_imp_loop [OF b [OF that]] assms by (simp add: SendEvent_def)
  from a b c show ?thesis by blast
qed

theorem SendEvent_returns_iff_chain_finite_witness:
  "''EventFoo'' \<noteq> []
   \<and> SendEventFuel (Suc 0) exEnv ''EventFoo'' None twoCfg = None
   \<and> SendEventFuel (Suc (Suc 0)) exEnv ''EventFoo'' None twoCfg
       = Some (Return ErrNil,
             twoCfg\<lparr>world := [''StateBar'', ''StateFoo'', ''StateFoo'', ''StateBar''],
                    calls := [CallAction (ActionFn 0) None, CallExit (StateFn 2) ''StateBar'',
                              CallEnter (StateFn 4) ''StateFoo'',
                              CallExit (StateFn 2) ''StateFoo'',
                              CallEnter (StateFn 4) ''StateBar'']\<rparr>)
   \<and> SendEvent exEnv ''EventFoo'' None twoCfg
       = Some (Return ErrNil,
             twoCfg\<lparr>world := [''StateBar'', ''StateFoo'', ''StateFoo'', ''StateBar''],
                    calls := [CallAction (ActionFn 0) None, CallExit (StateFn 2) ''StateBar'',
                              CallEnter (StateFn 4) ''StateFoo'',
                              CallExit (StateFn 2) ''StateFoo'',
                              CallEnter (StateFn 4) ''StateBar'']\<rparr>)
   \<and> event (fsm (snd (SendEventIter exEnv ''EventFoo'' None vetoCfg))) = []
   \<and> SendEvent exEnv ''EventFoo'' None vetoCfg
       = Some (SendEventIter exEnv ''EventFoo'' None vetoCfg)"
proof -
  let ?final = "twoCfg\<lparr>world := [''StateBar'', ''StateFoo'', ''StateFoo'', ''StateBar''],
                    calls := [CallAction (ActionFn 0) None, CallExit (StateFn 2) ''StateBar'',
                              CallEnter (StateFn 4) ''StateFoo'',
                              CallExit (StateFn 2) ''StateFoo'',
                              CallEnter (StateFn 4) ''StateBar'']\<rparr>"
  have ev: "''EventFoo'' \<noteq> []" by simp
  have one: "SendEventFuel (Suc 0) exEnv ''EventFoo'' None twoCfg = None"
    by (simp add: dispatch_defs example_defs)
  have run: "SendEvent exEnv ''EventFoo'' None twoCfg = Some (Return ErrNil, ?final)"
    using SendEvent_returns_iff_chain_finite
      [OF ev, of exEnv None twoCfg "(Return ErrNil, ?final)"] twoCfg_fuel
    by blast
  have nop: "event (fsm (snd (SendEventIter exEnv ''EventFoo'' None vetoCfg))) = []"
    by (simp add: dispatch_defs example_defs)
  have "SendEvent exEnv ''EventFoo'' None vetoCfg
          = Some (SendEventIter exEnv ''EventFoo'' None vetoCfg)"
    using SendEvent_returns_iff_chain_finite [OF ev, of exEnv None vetoCfg] nop
    by blast
  with ev one twoCfg_fuel run nop show ?thesis by blast
qed

end
